theory Spec2Isabelle
  imports Main "HOL-Library.Sublist"
begin

section \<open>Path functions used by \<open>cmd/extract_container_image.ts\<close>\<close>

text \<open>
  The program imports \<open>Path\<close> (the POSIX path module of the Deno standard library) through
  \<open>cmd/deps.ts\<close>. The functions it calls are \<open>Path.parse\<close>, \<open>Path.join\<close>,
  \<open>Path.normalize\<close>, \<open>Path.common\<close>, \<open>Path.isAbsolute\<close> and \<open>Path.dirname\<close>. They are
  library code, not code of the repository; they are modelled here after the library's
  POSIX implementation, on strings as lists of characters, with \<open>/\<close> the only separator.
  The specification uses them by name (\<open>normalize\<close>, \<open>join\<close>) and says no more of them.
\<close>

abbreviation SEP :: char where
  "SEP \<equiv> CHR ''/''"

text \<open>JavaScript's \<open>s.split("/")\<close>: one part more than there are separators.\<close>

fun split_sep :: "string \<Rightarrow> string list" where
  "split_sep [] = [[]]"
| "split_sep (c # cs) =
     (if c = SEP then [] # split_sep cs
      else (case split_sep cs of
              [] \<Rightarrow> [[c]]
            | part # parts \<Rightarrow> (c # part) # parts))"

text \<open>JavaScript's \<open>parts.join("/")\<close>.\<close>

fun join_sep :: "string list \<Rightarrow> string" where
  "join_sep [] = []"
| "join_sep [x] = x"
| "join_sep (x # y # ys) = x @ SEP # join_sep (y # ys)"

text \<open>JavaScript's \<open>s.startsWith(p)\<close> and \<open>s.endsWith(p)\<close>.\<close>

definition startsWith :: "string \<Rightarrow> string \<Rightarrow> bool" where
  "startsWith s p = prefix p s"

definition endsWith :: "string \<Rightarrow> string \<Rightarrow> bool" where
  "endsWith s p = prefix (rev p) (rev s)"

text \<open>
  \<open>stripTrailingSeparators(segment)\<close>: separators at the end of the segment are removed,
  but never the character at index 0.
\<close>

definition stripTrailingSeparators :: "string \<Rightarrow> string" where
  "stripTrailingSeparators segment =
     (case segment of
        [] \<Rightarrow> []
      | c # cs \<Rightarrow> c # rev (dropWhile (\<lambda>x. x = SEP) (rev cs)))"

text \<open>
  \<open>Path.isAbsolute(path)\<close>: the path is not empty and starts with a separator.
\<close>

definition isAbsolute :: "string \<Rightarrow> bool" where
  "isAbsolute path = (case path of [] \<Rightarrow> False | c # _ \<Rightarrow> c = SEP)"

text \<open>
  \<open>Path.dirname(path)\<close>. The library scans from the end down to index 1: it skips the
  trailing separators, then the last component, and stops at the separator before it
  (index \<open>end\<close>). With no such separator the result is \<open>/\<close> for a path that starts with
  a separator and \<open>.\<close> otherwise; else it is \<open>path.slice(0, end)\<close> with its trailing
  separators stripped.
\<close>

definition dirname :: "string \<Rightarrow> string" where
  "dirname path =
     (case path of
        [] \<Rightarrow> ''.''
      | c # cs \<Rightarrow>
          (case dropWhile (\<lambda>x. x \<noteq> SEP) (dropWhile (\<lambda>x. x = SEP) (rev cs)) of
             [] \<Rightarrow> (if c = SEP then ''/'' else ''.'')
           | _ # front \<Rightarrow> stripTrailingSeparators (c # rev front)))"

text \<open>
  \<open>Path.parse(path)\<close>, its fields \<open>dir\<close> and \<open>base\<close>, for a path that starts with a
  separator (the program only parses \<open>"/" + path\<close>). The scan is the one of \<open>dirname\<close>,
  from the end down to index 1: \<open>base\<close> is the last component, without the separators
  that follow it, and \<open>/\<close> when there is no component; \<open>dir\<close> is what precedes the
  separator before the last component, with trailing separators stripped, and \<open>/\<close> when
  the last component starts at index 1.
\<close>

definition parse_base :: "string \<Rightarrow> string" where
  "parse_base path =
     (case rev (takeWhile (\<lambda>x. x \<noteq> SEP) (dropWhile (\<lambda>x. x = SEP) (rev (tl path)))) of
        [] \<Rightarrow> ''/''
      | b # bs \<Rightarrow> b # bs)"

definition parse_dir :: "string \<Rightarrow> string" where
  "parse_dir path =
     (case dropWhile (\<lambda>x. x \<noteq> SEP) (dropWhile (\<lambda>x. x = SEP) (rev (tl path))) of
        [] \<Rightarrow> ''/''
      | _ # front \<Rightarrow> stripTrailingSeparators (SEP # rev front))"

text \<open>
  \<open>normalizeString(path, allowAboveRoot)\<close>: the components of the path are pushed on a
  stack; an empty component and \<open>.\<close> are skipped; \<open>..\<close> pops the last component unless
  the stack is empty or its top is \<open>..\<close>, in which case \<open>..\<close> is pushed when
  \<open>allowAboveRoot\<close> holds and dropped otherwise. The stack is kept reversed here.
\<close>

definition normalizeStep :: "bool \<Rightarrow> string list \<Rightarrow> string \<Rightarrow> string list" where
  "normalizeStep allowAboveRoot res seg =
     (if seg = [] \<or> seg = ''.'' then res
      else if seg = ''..'' then
        (case res of
           [] \<Rightarrow> (if allowAboveRoot then [''..''] else [])
         | lastSeg # below \<Rightarrow>
             (if lastSeg = ''..'' then (if allowAboveRoot then ''..'' # res else res)
              else below))
      else seg # res)"

definition normalizeString :: "string \<Rightarrow> bool \<Rightarrow> string" where
  "normalizeString path allowAboveRoot =
     join_sep (rev (foldl (normalizeStep allowAboveRoot) [] (split_sep path)))"

text \<open>\<open>Path.normalize(path)\<close>.\<close>

definition normalize :: "string \<Rightarrow> string" where
  "normalize path =
     (if path = [] then ''.''
      else
        (let isAbs = (hd path = SEP);
             trailingSeparator = (last path = SEP);
             p = normalizeString path (\<not> isAbs);
             p1 = (if p = [] \<and> \<not> isAbs then ''.'' else p);
             p2 = (if p1 \<noteq> [] \<and> trailingSeparator then p1 @ ''/'' else p1)
         in if isAbs then SEP # p2 else p2))"

text \<open>\<open>Path.join(...paths)\<close>: the non-empty arguments joined by \<open>/\<close>, then normalized.\<close>

definition join :: "string list \<Rightarrow> string" where
  "join paths =
     (case filter (\<lambda>p. p \<noteq> []) paths of
        [] \<Rightarrow> ''.''
      | p # ps \<Rightarrow> normalize (join_sep (p # ps)))"

text \<open>
  \<open>Path.common(paths)\<close>. The first path is split into parts; \<open>endOfPrefix\<close> starts at the
  number of parts and, for every other path, is lowered to the first index at which that
  path's parts differ from the first one's (a missing part differs). The result is the
  first \<open>endOfPrefix\<close> parts joined, \<^emph>\<open>with a separator appended\<close> when the joined prefix
  does not end with one; it is empty when \<open>endOfPrefix\<close> is 0. (The library's own example:
  the common path of \<open>./deno/std/path/mod.ts\<close> and \<open>./deno/std/fs/mod.ts\<close> is
  \<open>./deno/std/\<close>.) The file \<open>cmd/deps.ts\<close>, which fixes the version of the library, is
  missing. What \<open>common\<close> returns when one path is a prefix of the other bears on the
  statements about the scope of an opaque whiteout (C2) only.
\<close>

fun commonLen :: "string list \<Rightarrow> string list \<Rightarrow> nat" where
  "commonLen (p # ps) (c # cs) = (if c \<noteq> p then 0 else Suc (commonLen ps cs))"
| "commonLen _ _ = 0"

definition common :: "string list \<Rightarrow> string" where
  "common paths =
     (case paths of
        [] \<Rightarrow> []
      | first # remaining \<Rightarrow>
          (if first = [] \<or> remaining = []
           then rev (dropWhile (\<lambda>x. x \<noteq> SEP) (rev first))
           else
             (let parts = split_sep first;
                  endOfPrefix =
                    foldl (\<lambda>n path. min n (commonLen parts (split_sep path)))
                      (length parts) remaining
              in if endOfPrefix = 0 then []
                 else
                   (let pre = join_sep (take endOfPrefix parts)
                    in if endsWith pre ''/'' then pre else pre @ ''/''))))"


section \<open>Data model\<close>

text \<open>
  Modelled from the spec: the kinds of entries of the archive entry source. The tar
  reader \<open>vendor/untar.ts\<close>, which declares them, is missing. The specification names
  files, directories, symbolic links, hard links, device nodes and fifos; the program
  compares the type of an entry with the strings \<open>"file"\<close>, \<open>"directory"\<close> and
  \<open>"symlink"\<close>.
\<close>

datatype entry_type =
  File | Link | Symlink | CharacterDevice | BlockDevice | Directory | Fifo | ContiguousFile

text \<open>
  Modelled from the spec: what the archive entry source (the missing \<open>vendor/untar.ts\<close>)
  exposes of an entry: a name, a type, a size, a mode and a link target, under the names
  the program reads them by. The field \<open>type\<close> of a tar entry is called \<open>tarType\<close> here,
  to keep \<open>type\<close> for \<open>LayerEntry\<close>. An absent \<open>fileSize\<close> or \<open>fileMode\<close> is \<open>None\<close>.
\<close>

record TarEntry =
  fileName :: string
  tarType :: entry_type
  fileSize :: "nat option"
  fileMode :: "nat option"
  linkName :: string

text \<open>A nested entry (an entry of a layer archive) and the bytes of its stream.\<close>

record NestedEntry = TarEntry +
  bytes :: string

text \<open>The format of Docker saved manifest entries (interface \<open>ManifestEntry\<close>).\<close>

record ManifestEntry =
  Config :: string
  RepoTags :: "string list option"
  Layers :: "string list"

text \<open>
  What \<open>Streams.toJson\<close> makes of an entry's stream: an array (cast by the program to
  \<open>ManifestEntry[]\<close> with no further check), another JSON value, or no JSON at all (the
  decoder throws).
\<close>

datatype json = JsonArray "ManifestEntry list" | JsonOther | JsonInvalid

text \<open>
  An entry of the outer archive, with the two readings the program makes of its stream:
  as JSON (\<open>Streams.toJson\<close>) and as a nested archive (\<open>new Untar(entry)\<close>).
\<close>

record OuterEntry = TarEntry +
  toJson :: json
  untar :: "NestedEntry list"

text \<open>
  Class \<open>LayerEntry\<close>. The field \<open>size\<close> is called \<open>fsize\<close> here. The constructor
  parses \<open>"/" + path\<close> and derives the whiteout target.
\<close>

record LayerEntry =
  layerName :: string
  type :: entry_type
  path :: string
  fsize :: nat
  dir :: string
  base :: string
  whiteout :: string
  isOpaqueWhiteout :: bool

definition newLayerEntry :: "string \<Rightarrow> entry_type \<Rightarrow> string \<Rightarrow> nat \<Rightarrow> LayerEntry" where
  "newLayerEntry lname ty p sz =
     (let parsedDir = parse_dir (SEP # p);
          parsedBase = parse_base (SEP # p)
      in \<lparr> layerName = lname, type = ty, path = p, fsize = sz,
           dir = parsedDir, base = parsedBase,
           whiteout =
             (if parsedBase = ''.wh..wh..opq'' then parsedDir
              else if startsWith parsedBase ''.wh.'' then join [parsedDir, drop 4 parsedBase]
              else []),
           isOpaqueWhiteout = (parsedBase = ''.wh..wh..opq'') \<rparr>)"

text \<open>Interface \<open>LayerInformation\<close>.\<close>

record LayerInformation =
  name :: string
  entries :: "LayerEntry list"
  loaded :: bool

text \<open>
  The errors the program throws, named after their messages:
  \<open>Archive has no manifest\<close>, \<open>Archive manifest is not an array as expected\<close> (a
  \<open>TypeError\<close>), the JSON decoder's own error, \<open>Archive manifest does not contain image
  tag\<close>, \<open>Internal error: Can't find layer information\<close>, \<open>Could not find information for
  all layers\<close> and \<open>Directory escape detected for ...\<close>.
\<close>

datatype error =
  ArchiveHasNoManifest
| ManifestNotArray
| ManifestNotJson
| NoImageTag
| NoLayerInformation
| MissingLayerInformation
| DirectoryEscape string

text \<open>The error kinds of the specification, and the kind of each thrown error.\<close>

datatype error_kind = NotFound | FormatError | PathEscape | InternalError

fun kind :: "error \<Rightarrow> error_kind" where
  "kind ArchiveHasNoManifest = NotFound"
| "kind ManifestNotArray = FormatError"
| "kind ManifestNotJson = FormatError"
| "kind NoImageTag = NotFound"
| "kind NoLayerInformation = InternalError"
| "kind MissingLayerInformation = NotFound"
| "kind (DirectoryEscape _) = PathEscape"

text \<open>
  The calls the extractor makes on the file system, in order: \<open>Deno.mkdir\<close> (recursive),
  \<open>Deno.chmod\<close>, opening a file with create and truncate and copying the stream into it,
  \<open>Deno.remove\<close> (a missing file is ignored) and \<open>Deno.symlink(target, path)\<close>. The model
  records the calls; it does not model their failures.
\<close>

datatype fs_op =
  Mkdir string
| Chmod string nat
| WriteFile string string
| Remove string
| SymlinkTo string string

text \<open>The path a call writes at (for a symbolic link: where the link is made).\<close>

fun opPath :: "fs_op \<Rightarrow> string" where
  "opPath (Mkdir p) = p"
| "opPath (Chmod p m) = p"
| "opPath (WriteFile p b) = p"
| "opPath (Remove p) = p"
| "opPath (SymlinkTo t p) = p"

section \<open>The whiteout digest: class \<open>UpperLayerDigest\<close>\<close>

record UpperLayerDigest =
  whiteouts :: "string set"
  filePaths :: "string set"

definition emptyDigest :: UpperLayerDigest where
  "emptyDigest = \<lparr> whiteouts = {}, filePaths = {} \<rparr>"

definition directoryMatch :: "string \<Rightarrow> string set \<Rightarrow> bool" where
  "directoryMatch candidate items =
     (\<exists>item \<in> items. candidate = item \<or> common [candidate, item] = item)"

fun isEntryAllowed :: "UpperLayerDigest \<Rightarrow> LayerEntry \<Rightarrow> bool" where
  "isEntryAllowed d entry =
     (if directoryMatch (dir entry) (whiteouts d) then False
      else (type entry \<noteq> File) \<or>
           \<not> (path entry \<in> filePaths d \<or> (SEP # path entry) \<in> whiteouts d))"

fun addEntry :: "UpperLayerDigest \<Rightarrow> LayerEntry \<Rightarrow> UpperLayerDigest" where
  "addEntry d entry =
     (if whiteout entry \<noteq> [] then d\<lparr> whiteouts := insert (whiteout entry) (whiteouts d) \<rparr>
      else if type entry = File \<or> type entry = Symlink
      then d\<lparr> filePaths := insert (path entry) (filePaths d) \<rparr>
      else d)"

declare isEntryAllowed.simps [simp del]

declare addEntry.simps [simp del]

text \<open>
  \<open>applyDigest(info)\<close> filters the entries of the layer with the digest as the upper
  layers left it, then adds the entries that are left. It returns the new digest and the
  layer with its entries replaced.
\<close>

definition applyDigest ::
  "UpperLayerDigest \<Rightarrow> LayerInformation \<Rightarrow> UpperLayerDigest \<times> LayerInformation" where
  "applyDigest d info =
     (let kept = filter (isEntryAllowed d) (entries info)
      in (foldl addEntry d kept, info\<lparr> entries := kept \<rparr>))"

text \<open>
  The loop \<open>for (const info of layerInfo.toReversed()) digest.applyDigest(info)\<close>:
  \<open>digestLayers\<close> walks a list of layers in the order given, threading the digest;
  \<open>applyDigests\<close> gives it the layers newest first and returns them in manifest order,
  as the program leaves \<open>layerInfo\<close>.
\<close>

fun digestLayers ::
  "UpperLayerDigest \<Rightarrow> LayerInformation list \<Rightarrow> UpperLayerDigest \<times> LayerInformation list" where
  "digestLayers d [] = (d, [])"
| "digestLayers d (info # rest) =
     (case applyDigest d info of
        (d1, info1) \<Rightarrow>
          (case digestLayers d1 rest of (d2, rest1) \<Rightarrow> (d2, info1 # rest1)))"

definition applyDigests :: "LayerInformation list \<Rightarrow> LayerInformation list" where
  "applyDigests layerInfo = rev (snd (digestLayers emptyDigest (rev layerInfo)))"

section \<open>The manifest reader\<close>

text \<open>
  \<open>getArchiveManifest\<close>: the first entry of the outer archive that is a file named
  \<open>manifest.json\<close> decides; an archive without one has no manifest.
\<close>

definition isManifestEntry :: "OuterEntry \<Rightarrow> bool" where
  "isManifestEntry entry = (tarType entry = File \<and> fileName entry = ''manifest.json'')"

fun getArchiveManifest :: "OuterEntry list \<Rightarrow> error + ManifestEntry list" where
  "getArchiveManifest [] = Inl ArchiveHasNoManifest"
| "getArchiveManifest (entry # rest) =
     (if isManifestEntry entry
      then (case toJson entry of
              JsonArray rawManifest \<Rightarrow> Inr rawManifest
            | JsonOther \<Rightarrow> Inl ManifestNotArray
            | JsonInvalid \<Rightarrow> Inl ManifestNotJson)
      else getArchiveManifest rest)"

definition dockerRepoPrefix :: string where
  "dockerRepoPrefix = ''docker.io/library/''"

definition shortImageName :: "string \<Rightarrow> string" where
  "shortImageName img =
     (if startsWith img dockerRepoPrefix then drop (length dockerRepoPrefix) img
      else img)"

text \<open>The predicate of \<open>manifest.find\<close> in \<open>extractContainerImage\<close>.\<close>

definition hasRepoTag :: "string \<Rightarrow> ManifestEntry \<Rightarrow> bool" where
  "hasRepoTag tag e = (case RepoTags e of None \<Rightarrow> False | Some tags \<Rightarrow> tag \<in> set tags)"

text \<open>
  The manifest part of \<open>extractContainerImage\<close>: read the manifest, then find the first
  record whose \<open>RepoTags\<close> include the short image name.
\<close>

definition selectManifestEntry :: "OuterEntry list \<Rightarrow> string \<Rightarrow> error + ManifestEntry" where
  "selectManifestEntry outer img =
     (case getArchiveManifest outer of
        Inl e \<Rightarrow> Inl e
      | Inr manifest \<Rightarrow>
          (case find (hasRepoTag (shortImageName img)) manifest of
             None \<Rightarrow> Inl NoImageTag
           | Some mainEntry \<Rightarrow> Inr mainEntry))"

section \<open>The layer parser\<close>

text \<open>
  \<open>parseLayerFiles\<close> makes one \<open>LayerInformation\<close> object per name, in \<open>results\<close>, and a
  map \<open>infoMap\<close> from names to these objects, filled in the order of \<open>results\<close> (a later
  object of the same name replaces an earlier one). An object is its index in \<open>results\<close>
  here, so that what the program writes through \<open>infoMap\<close> is written in \<open>results\<close>.
\<close>

definition buildInfoMap :: "LayerInformation list \<Rightarrow> (string \<rightharpoonup> nat)" where
  "buildInfoMap results =
     foldl (\<lambda>m i. m(name (results ! i) \<mapsto> i)) Map.empty [0..<length results]"

text \<open>The entries pushed for one layer archive: the inner loop of \<open>parseLayerFiles\<close>.\<close>

definition isLayerType :: "entry_type \<Rightarrow> bool" where
  "isLayerType t = (t = Directory \<or> t = File \<or> t = Symlink)"

definition parseNested :: "string \<Rightarrow> NestedEntry list \<Rightarrow> LayerEntry list" where
  "parseNested lname nested =
     map (\<lambda>nestedEntry.
            newLayerEntry lname (tarType nestedEntry) (fileName nestedEntry)
              (case fileSize nestedEntry of None \<Rightarrow> 0 | Some sz \<Rightarrow> sz))
       (filter (\<lambda>nestedEntry. isLayerType (tarType nestedEntry)) nested)"

fun parseOuter ::
  "string list \<Rightarrow> (string \<rightharpoonup> nat) \<Rightarrow> LayerInformation list \<Rightarrow> OuterEntry list
     \<Rightarrow> error + LayerInformation list" where
  "parseOuter names infoMap results [] = Inr results"
| "parseOuter names infoMap results (entry # rest) =
     (if tarType entry = File \<and> fileName entry \<in> set names
      then (case infoMap (fileName entry) of
              None \<Rightarrow> Inl NoLayerInformation
            | Some i \<Rightarrow>
                parseOuter names infoMap
                  (results[i := (results ! i)
                     \<lparr> entries := entries (results ! i) @ parseNested (fileName entry) (untar entry),
                       loaded := True \<rparr>])
                  rest)
      else parseOuter names infoMap results rest)"

definition parseLayerFiles :: "OuterEntry list \<Rightarrow> string list \<Rightarrow> error + LayerInformation list" where
  "parseLayerFiles outer names =
     (let results = map (\<lambda>n. \<lparr> name = n, entries = [], loaded = False \<rparr>) names
      in case parseOuter names (buildInfoMap results) results outer of
           Inl e \<Rightarrow> Inl e
         | Inr results1 \<Rightarrow>
             (case find (\<lambda>info. \<not> loaded info) results1 of
                Some _ \<Rightarrow> Inl MissingLayerInformation
              | None \<Rightarrow> Inr results1))"

section \<open>The extractor\<close>

text \<open>
  The map from path to \<open>LayerEntry\<close> that \<open>extractLayers\<close> builds from the layers in
  manifest order; whiteout entries are left out. (The guard \<open>if (!layer.entries) continue\<close>
  never fires: an array, also an empty one, is truthy.)
\<close>

definition buildEntryMap :: "LayerInformation list \<Rightarrow> (string \<rightharpoonup> LayerEntry)" where
  "buildEntryMap layerInfo =
     foldl (\<lambda>m layer.
              foldl (\<lambda>m1 entry. if whiteout entry = [] then m1(path entry \<mapsto> entry) else m1)
                m (entries layer))
       Map.empty layerInfo"

text \<open>\<open>if (nestedEntry.fileMode) await Deno.chmod(...)\<close>: an absent or zero mode is skipped.\<close>

definition chmodOps :: "string \<Rightarrow> nat option \<Rightarrow> fs_op list" where
  "chmodOps outputPath mode =
     (case mode of
        None \<Rightarrow> []
      | Some m \<Rightarrow> (if m = 0 then [] else [Chmod outputPath m]))"

text \<open>
  The body of the inner loop of \<open>extractLayers\<close> for one nested entry: the calls it makes
  on the file system, or the error it throws (before any call for that entry).
  \<open>directory\<close> is the normalized destination.
\<close>

definition extractNested ::
  "string \<Rightarrow> (string \<rightharpoonup> LayerEntry) \<Rightarrow> NestedEntry \<Rightarrow> error + fs_op list" where
  "extractNested directory entryMap nestedEntry =
     (if \<not> isLayerType (tarType nestedEntry) then Inr []
      else
        (case entryMap (fileName nestedEntry) of
           None \<Rightarrow> Inr []
         | Some layerEntry \<Rightarrow>
             (let outputPath = normalize (join [directory, fileName nestedEntry])
              in if \<not> startsWith outputPath directory
                 then Inl (DirectoryEscape (fileName nestedEntry))
                 else if type layerEntry = Directory
                 then Inr (Mkdir outputPath # chmodOps outputPath (fileMode nestedEntry))
                 else if type layerEntry = File
                 then Inr (WriteFile outputPath (bytes nestedEntry)
                            # chmodOps outputPath (fileMode nestedEntry))
                 else if type layerEntry = Symlink
                 then
                   (let destination = linkName nestedEntry;
                        destinationPath =
                          (if isAbsolute destination
                           then normalize (join [directory, destination])
                           else normalize (join [dirname outputPath, destination]))
                    in if \<not> startsWith destinationPath directory
                       then Inl (DirectoryEscape destinationPath)
                       else Inr [Remove outputPath, SymlinkTo destinationPath outputPath])
                 else Inr [])))"

text \<open>
  The two loops of \<open>extractLayers\<close>. They return the error thrown, if any, and the calls
  made on the file system up to then: nothing is undone when the extraction fails.
\<close>

fun extractNestedEntries ::
  "string \<Rightarrow> (string \<rightharpoonup> LayerEntry) \<Rightarrow> fs_op list \<Rightarrow> NestedEntry list
     \<Rightarrow> error option \<times> fs_op list" where
  "extractNestedEntries directory entryMap written [] = (None, written)"
| "extractNestedEntries directory entryMap written (nestedEntry # rest) =
     (case extractNested directory entryMap nestedEntry of
        Inl e \<Rightarrow> (Some e, written)
      | Inr ops \<Rightarrow> extractNestedEntries directory entryMap (written @ ops) rest)"

fun extractOuterEntries ::
  "string \<Rightarrow> string set \<Rightarrow> (string \<rightharpoonup> LayerEntry) \<Rightarrow> fs_op list \<Rightarrow> OuterEntry list
     \<Rightarrow> error option \<times> fs_op list" where
  "extractOuterEntries directory names entryMap written [] = (None, written)"
| "extractOuterEntries directory names entryMap written (entry # rest) =
     (if (tarType entry = File \<or> tarType entry = Symlink) \<and> fileName entry \<in> names
      then (case extractNestedEntries directory entryMap written (untar entry) of
              (Some e, written1) \<Rightarrow> (Some e, written1)
            | (None, written1) \<Rightarrow> extractOuterEntries directory names entryMap written1 rest)
      else extractOuterEntries directory names entryMap written rest)"

definition extractLayers ::
  "OuterEntry list \<Rightarrow> string \<Rightarrow> LayerInformation list \<Rightarrow> error option \<times> fs_op list" where
  "extractLayers outer directory layerInfo =
     extractOuterEntries (normalize directory) (set (map name layerInfo))
       (buildEntryMap layerInfo) [] outer"

section \<open>The whole run: \<open>extractContainerImage\<close>\<close>

text \<open>
  \<open>outer\<close> is the archive that \<open>docker image save\<close> wrote for the image \<open>img\<close> (the name after
  an optional pull). The result is the error thrown, if any, and the calls made on the
  file system.
\<close>

definition extractContainerImage ::
  "string \<Rightarrow> string \<Rightarrow> OuterEntry list \<Rightarrow> error option \<times> fs_op list" where
  "extractContainerImage img directory outer =
     (case selectManifestEntry outer img of
        Inl e \<Rightarrow> (Some e, [])
      | Inr mainEntry \<Rightarrow>
          (case parseLayerFiles outer (Layers mainEntry) of
             Inl e \<Rightarrow> (Some e, [])
           | Inr layerInfo \<Rightarrow> extractLayers outer directory (applyDigests layerInfo)))"

section \<open>Example archives\<close>

text \<open>
  Shorthands for the concrete archives of the examples below: a nested entry with its
  name, type, link target and bytes; an outer file entry holding a layer archive; and a
  \<open>manifest.json\<close> with one record, tagged \<open>img:1\<close>, listing the given layers oldest
  first.
\<close>

definition mkNested :: "string \<Rightarrow> entry_type \<Rightarrow> string \<Rightarrow> string \<Rightarrow> NestedEntry" where
  "mkNested n t l b =
     \<lparr> fileName = n, tarType = t, fileSize = Some (length b), fileMode = None,
       linkName = l, bytes = b \<rparr>"

definition mkOuter :: "string \<Rightarrow> entry_type \<Rightarrow> NestedEntry list \<Rightarrow> OuterEntry" where
  "mkOuter n t es =
     \<lparr> fileName = n, tarType = t, fileSize = None, fileMode = None, linkName = [],
       toJson = JsonInvalid, untar = es \<rparr>"

definition mkManifest :: "json \<Rightarrow> OuterEntry" where
  "mkManifest j =
     \<lparr> fileName = ''manifest.json'', tarType = File, fileSize = None, fileMode = None,
       linkName = [], toJson = j, untar = [] \<rparr>"

definition manifestOf :: "string list \<Rightarrow> OuterEntry" where
  "manifestOf ls =
     mkManifest (JsonArray [\<lparr> Config = ''config.json'', RepoTags = Some [''img:1''], Layers = ls \<rparr>])"

text \<open>
  Two layers that both declare the file \<open>p\<close>: \<open>l1\<close> (older) with the bytes \<open>old\<close>,
  \<open>l2\<close> (newer) with the bytes \<open>new\<close>. In the outer archive the archive of \<open>l2\<close> comes
  before that of \<open>l1\<close>.
\<close>

definition collisionArchive :: "OuterEntry list" where
  "collisionArchive =
     [manifestOf [''l1'', ''l2''],
      mkOuter ''l2'' File [mkNested ''p'' File [] ''new''],
      mkOuter ''l1'' File [mkNested ''p'' File [] ''old'']]"

text \<open>The same two layers, with the archive of \<open>l1\<close> first in the outer archive.\<close>

definition collisionArchiveOldestFirst :: "OuterEntry list" where
  "collisionArchiveOldestFirst =
     [manifestOf [''l1'', ''l2''],
      mkOuter ''l1'' File [mkNested ''p'' File [] ''old''],
      mkOuter ''l2'' File [mkNested ''p'' File [] ''new'']]"

text \<open>
  The example of the specification for opaque whiteouts: \<open>l1\<close> (older) declares the
  directories \<open>var\<close> and \<open>var/log\<close> and the file \<open>var/log/a.txt\<close>; \<open>l2\<close> (newer)
  declares the opaque whiteout \<open>var/.wh..wh..opq\<close>.
\<close>

definition opaqueArchive :: "OuterEntry list" where
  "opaqueArchive =
     [manifestOf [''l1'', ''l2''],
      mkOuter ''l1'' File
        [mkNested ''var'' Directory [] [],
         mkNested ''var/log'' Directory [] [],
         mkNested ''var/log/a.txt'' File [] ''a''],
      mkOuter ''l2'' File [mkNested ''var/.wh..wh..opq'' File [] []]]"

text \<open>
  The opaque whiteout \<open>var/.wh..wh..opq\<close> of the layer \<open>l2\<close> (its target is \<open>/var\<close>), and
  the two layers of \<open>opaqueArchive\<close> as the parser leaves them, oldest first.
\<close>

definition opaqueMarker :: LayerEntry where
  "opaqueMarker = newLayerEntry ''l2'' File ''var/.wh..wh..opq'' 0"

definition opaqueLayers :: "LayerInformation list" where
  "opaqueLayers =
     [\<lparr> name = ''l1'',
        entries = [newLayerEntry ''l1'' Directory ''var'' 0,
                   newLayerEntry ''l1'' Directory ''var/log'' 0,
                   newLayerEntry ''l1'' File ''var/log/a.txt'' 1],
        loaded = True \<rparr>,
      \<lparr> name = ''l2'', entries = [opaqueMarker], loaded = True \<rparr>]"

text \<open>One layer with a file whose name climbs out of the destination \<open>/tmp/out\<close>.\<close>

definition traversalArchive :: "OuterEntry list" where
  "traversalArchive =
     [manifestOf [''l1''],
      mkOuter ''l1'' File [mkNested ''../outside/evil'' File [] ''x'']]"

text \<open>A manifest that lists the layer \<open>l1\<close> twice, and the archive of \<open>l1\<close>.\<close>

definition repeatedLayerArchive :: "OuterEntry list" where
  "repeatedLayerArchive =
     [manifestOf [''l1'', ''l1''],
      mkOuter ''l1'' File [mkNested ''a'' File [] ''x'']]"


text \<open>The whiteout \<open>etc/.wh.conf\<close> of a layer \<open>l2\<close>: its target is \<open>/etc/conf\<close>.\<close>

definition confWhiteout :: LayerEntry where
  "confWhiteout = newLayerEntry ''l2'' File ''etc/.wh.conf'' 0"

text \<open>
  Three layers as the parser leaves them, oldest first: \<open>l1\<close> declares the directory
  \<open>etc/d\<close> and the files \<open>etc/conf\<close> and \<open>etc/passwd\<close>; \<open>l2\<close> declares whiteouts for
  \<open>etc/conf\<close> and \<open>etc/d\<close>; \<open>l3\<close> declares the file \<open>etc/conf\<close> again.
\<close>

definition recreatedLayers :: "LayerInformation list" where
  "recreatedLayers =
     [\<lparr> name = ''l1'',
        entries = [newLayerEntry ''l1'' Directory ''etc/d'' 0,
                   newLayerEntry ''l1'' File ''etc/conf'' 0,
                   newLayerEntry ''l1'' File ''etc/passwd'' 0],
        loaded = True \<rparr>,
      \<lparr> name = ''l2'',
        entries = [confWhiteout, newLayerEntry ''l2'' File ''etc/.wh.d'' 0],
        loaded = True \<rparr>,
      \<lparr> name = ''l3'',
        entries = [newLayerEntry ''l3'' File ''etc/conf'' 0],
        loaded = True \<rparr>]"

text \<open>
  A symbolic link \<open>a/b/link\<close> of a layer \<open>l1\<close>, as an entry of the archive with a
  given link target, and the map that holds its \<open>LayerEntry\<close>.
\<close>

definition linkEntry :: "string \<Rightarrow> NestedEntry" where
  "linkEntry target = mkNested ''a/b/link'' Symlink target []"

definition linkMap :: "string \<rightharpoonup> LayerEntry" where
  "linkMap = [''a/b/link'' \<mapsto> newLayerEntry ''l1'' Symlink ''a/b/link'' 0]"

text \<open>
  A notion of the specification, for comparison with the program's check: a path remains
  under a root when the root's components are a prefix of the path's components.
\<close>

definition pathComponents :: "string \<Rightarrow> string list" where
  "pathComponents p = filter (\<lambda>c. c \<noteq> []) (split_sep p)"

definition remainsUnder :: "string \<Rightarrow> string \<Rightarrow> bool" where
  "remainsUnder root p = prefix (pathComponents root) (pathComponents p)"

section \<open>Lemmas on the digest\<close>

text \<open>
  The sets of the digest only grow; every whiteout entry that is kept enters the
  whiteouts, and every other file entry that is kept enters the claimed paths. What the
  digest rejects once, it rejects in every older layer.
\<close>

lemma addEntry_whiteouts_mono: "whiteouts d \<subseteq> whiteouts (addEntry d entry)"
  by (auto simp: addEntry.simps)

lemma foldl_addEntry_whiteouts_mono: "whiteouts d \<subseteq> whiteouts (foldl addEntry d es)"
proof (induction es arbitrary: d)
  case Nil
  show ?case by simp
next
  case (Cons entry es)
  have "whiteouts d \<subseteq> whiteouts (addEntry d entry)"
    by (rule addEntry_whiteouts_mono)
  also have "\<dots> \<subseteq> whiteouts (foldl addEntry (addEntry d entry) es)"
    by (rule Cons.IH)
  finally show ?case by (simp only: foldl_Cons)
qed

lemma foldl_addEntry_marker:
  "m \<in> set es \<Longrightarrow> whiteout m \<noteq> [] \<Longrightarrow> whiteout m \<in> whiteouts (foldl addEntry d es)"
proof (induction es arbitrary: d)
  case Nil
  then show ?case by simp
next
  case (Cons entry es)
  show ?case
  proof (cases "m = entry")
    case True
    with Cons.prems have "whiteout m \<in> whiteouts (addEntry d entry)"
      by (simp add: addEntry.simps)
    with foldl_addEntry_whiteouts_mono [of "addEntry d entry" es] show ?thesis
      by (auto simp only: foldl_Cons)
  next
    case False
    with Cons.prems have "m \<in> set es" by simp
    from Cons.IH [OF this Cons.prems(2)] show ?thesis by (simp only: foldl_Cons)
  qed
qed

lemma applyDigest_whiteouts_mono: "whiteouts d \<subseteq> whiteouts (fst (applyDigest d info))"
  by (simp add: applyDigest_def Let_def foldl_addEntry_whiteouts_mono)

lemma applyDigest_marker:
  "m \<in> set (entries (snd (applyDigest d info))) \<Longrightarrow> whiteout m \<noteq> [] \<Longrightarrow>
   whiteout m \<in> whiteouts (fst (applyDigest d info))"
  by (simp add: applyDigest_def Let_def foldl_addEntry_marker)

lemma isEntryAllowed_not_whited_out:
  "isEntryAllowed d entry \<Longrightarrow> t \<in> whiteouts d \<Longrightarrow>
   dir entry \<noteq> t \<and> common [dir entry, t] \<noteq> t
   \<and> (type entry = File \<longrightarrow> SEP # path entry \<noteq> t)"
  by (auto simp: isEntryAllowed.simps directoryMatch_def split: if_splits)

lemma applyDigest_kept_allowed:
  "entry \<in> set (entries (snd (applyDigest d info))) \<Longrightarrow> isEntryAllowed d entry"
  by (simp add: applyDigest_def Let_def)

lemma digestLayers_Cons:
  "snd (digestLayers d (info # rest)) =
     snd (applyDigest d info) # snd (digestLayers (fst (applyDigest d info)) rest)"
  by (simp split: prod.splits)

lemma digestLayers_length: "length (snd (digestLayers d ls)) = length ls"
  by (induction ls arbitrary: d) (simp_all add: digestLayers_Cons del: digestLayers.simps(2))

lemma digestLayers_whited_out:
  "t \<in> whiteouts d \<Longrightarrow> j < length ls \<Longrightarrow>
   entry \<in> set (entries (snd (digestLayers d ls) ! j)) \<Longrightarrow>
   dir entry \<noteq> t \<and> common [dir entry, t] \<noteq> t
   \<and> (type entry = File \<longrightarrow> SEP # path entry \<noteq> t)"
proof (induction ls arbitrary: d j)
  case Nil
  then show ?case by simp
next
  case (Cons info rest)
  show ?case
  proof (cases j)
    case 0
    with Cons.prems have "entry \<in> set (entries (snd (applyDigest d info)))"
      by (simp add: digestLayers_Cons del: digestLayers.simps)
    then have "isEntryAllowed d entry" by (rule applyDigest_kept_allowed)
    from isEntryAllowed_not_whited_out [OF this Cons.prems(1)] show ?thesis .
  next
    case (Suc k)
    from Cons.prems(1) applyDigest_whiteouts_mono [of d info]
    have t: "t \<in> whiteouts (fst (applyDigest d info))" by auto
    from Suc Cons.prems have k: "k < length rest"
      and e: "entry \<in> set (entries (snd (digestLayers (fst (applyDigest d info)) rest) ! k))"
      by (simp_all add: digestLayers_Cons del: digestLayers.simps)
    from Cons.IH [OF t k e] show ?thesis .
  qed
qed

lemma digestLayers_marker_hides:
  "i < j \<Longrightarrow> j < length ls \<Longrightarrow>
   m \<in> set (entries (snd (digestLayers d ls) ! i)) \<Longrightarrow> whiteout m \<noteq> [] \<Longrightarrow>
   entry \<in> set (entries (snd (digestLayers d ls) ! j)) \<Longrightarrow>
   dir entry \<noteq> whiteout m \<and> common [dir entry, whiteout m] \<noteq> whiteout m
   \<and> (type entry = File \<longrightarrow> SEP # path entry \<noteq> whiteout m)"
proof (induction ls arbitrary: d i j)
  case Nil
  then show ?case by simp
next
  case (Cons info rest)
  from Cons.prems(1) obtain k where j: "j = Suc k" by (cases j) auto
  with Cons.prems have k: "k < length rest"
    and e: "entry \<in> set (entries (snd (digestLayers (fst (applyDigest d info)) rest) ! k))"
    by (simp_all add: digestLayers_Cons del: digestLayers.simps)
  show ?case
  proof (cases i)
    case 0
    with Cons.prems have "m \<in> set (entries (snd (applyDigest d info)))"
      by (simp add: digestLayers_Cons del: digestLayers.simps)
    from applyDigest_marker [OF this Cons.prems(4)]
    have "whiteout m \<in> whiteouts (fst (applyDigest d info))" .
    from digestLayers_whited_out [OF this k e] show ?thesis .
  next
    case (Suc i')
    with Cons.prems j have "i' < k"
      and m: "m \<in> set (entries (snd (digestLayers (fst (applyDigest d info)) rest) ! i'))"
      by (simp_all add: digestLayers_Cons del: digestLayers.simps)
    from Cons.IH [OF this(1) k m Cons.prems(4) e] show ?thesis .
  qed
qed

lemma applyDigests_nth:
  "i < length layerInfo \<Longrightarrow>
   applyDigests layerInfo ! i =
     snd (digestLayers emptyDigest (rev layerInfo)) ! (length layerInfo - Suc i)"
  by (simp add: applyDigests_def rev_nth digestLayers_length)


lemma applyDigests_marker_hides:
  assumes "i < j" "j < length layerInfo"
    and "m \<in> set (entries (applyDigests layerInfo ! j))" "whiteout m \<noteq> []"
    and "entry \<in> set (entries (applyDigests layerInfo ! i))"
  shows "dir entry \<noteq> whiteout m \<and> common [dir entry, whiteout m] \<noteq> whiteout m
         \<and> (type entry = File \<longrightarrow> SEP # path entry \<noteq> whiteout m)"
proof -
  let ?n = "length layerInfo"
  let ?rs = "snd (digestLayers emptyDigest (rev layerInfo))"
  from assms(1,2) have lt: "?n - Suc j < ?n - Suc i" "?n - Suc i < length (rev layerInfo)"
    by simp_all
  from assms(1,2,3) have m': "m \<in> set (entries (?rs ! (?n - Suc j)))"
    by (simp add: applyDigests_nth)
  from assms(1,2,5) have e': "entry \<in> set (entries (?rs ! (?n - Suc i)))"
    by (simp add: applyDigests_nth)
  from digestLayers_marker_hides [OF lt m' assms(4) e'] show ?thesis .
qed

lemma addEntry_filePaths_mono: "filePaths d \<subseteq> filePaths (addEntry d entry)"
  by (auto simp: addEntry.simps)

lemma foldl_addEntry_filePaths_mono: "filePaths d \<subseteq> filePaths (foldl addEntry d es)"
proof (induction es arbitrary: d)
  case Nil
  show ?case by simp
next
  case (Cons entry es)
  have "filePaths d \<subseteq> filePaths (addEntry d entry)"
    by (rule addEntry_filePaths_mono)
  also have "\<dots> \<subseteq> filePaths (foldl addEntry (addEntry d entry) es)"
    by (rule Cons.IH)
  finally show ?case by (simp only: foldl_Cons)
qed

lemma foldl_addEntry_claims:
  "entry \<in> set es \<Longrightarrow> whiteout entry = [] \<Longrightarrow> type entry = File \<Longrightarrow>
   path entry \<in> filePaths (foldl addEntry d es)"
proof (induction es arbitrary: d)
  case Nil
  then show ?case by simp
next
  case (Cons x es)
  show ?case
  proof (cases "entry = x")
    case True
    with Cons.prems have "path entry \<in> filePaths (addEntry d x)"
      by (simp add: addEntry.simps)
    with foldl_addEntry_filePaths_mono [of "addEntry d x" es] show ?thesis
      by (auto simp only: foldl_Cons)
  next
    case False
    with Cons.prems have "entry \<in> set es" by simp
    from Cons.IH [OF this Cons.prems(2,3)] show ?thesis by (simp only: foldl_Cons)
  qed
qed

lemma applyDigest_filePaths_mono: "filePaths d \<subseteq> filePaths (fst (applyDigest d info))"
  by (simp add: applyDigest_def Let_def foldl_addEntry_filePaths_mono)

lemma directoryMatch_mono:
  "items \<subseteq> items' \<Longrightarrow> directoryMatch candidate items \<Longrightarrow> directoryMatch candidate items'"
  by (auto simp: directoryMatch_def)

lemma isEntryAllowed_antimono:
  "whiteouts d \<subseteq> whiteouts d' \<Longrightarrow> filePaths d \<subseteq> filePaths d' \<Longrightarrow>
   isEntryAllowed d' entry \<Longrightarrow> isEntryAllowed d entry"
  by (auto simp: isEntryAllowed.simps dest: directoryMatch_mono split: if_splits)

lemma isEntryAllowed_same_place:
  "type a = type b \<Longrightarrow> path a = path b \<Longrightarrow> dir a = dir b \<Longrightarrow>
   isEntryAllowed d a = isEntryAllowed d b"
  by (simp add: isEntryAllowed.simps)

lemma digestLayers_rejected_stays:
  "\<not> isEntryAllowed d entry \<Longrightarrow> j < length ls \<Longrightarrow>
   entry \<notin> set (entries (snd (digestLayers d ls) ! j))"
proof (induction ls arbitrary: d j)
  case Nil
  then show ?case by simp
next
  case (Cons info rest)
  show ?case
  proof (cases j)
    case 0
    with Cons.prems applyDigest_kept_allowed [of entry d info] show ?thesis
      by (auto simp add: digestLayers_Cons simp del: digestLayers.simps)
  next
    case (Suc k)
    from Cons.prems(1) have "\<not> isEntryAllowed (fst (applyDigest d info)) entry"
      using isEntryAllowed_antimono [OF applyDigest_whiteouts_mono applyDigest_filePaths_mono]
      by blast
    from Cons.IH [OF this, of k] Suc Cons.prems(2) show ?thesis
      by (simp add: digestLayers_Cons del: digestLayers.simps)
  qed
qed

lemma applyDigest_claims_or_rejects:
  assumes "newer \<in> set (entries info)" "type newer = File" "whiteout newer = []"
    and "type older = File" "path older = path newer" "dir older = dir newer"
  shows "\<not> isEntryAllowed (fst (applyDigest d info)) older"
proof (cases "isEntryAllowed d newer")
  case True
  with assms(1) have "newer \<in> set (filter (isEntryAllowed d) (entries info))" by simp
  from foldl_addEntry_claims [OF this assms(3,2)]
  have "path older \<in> filePaths (fst (applyDigest d info))"
    by (simp add: applyDigest_def Let_def assms(5))
  with assms(4) show ?thesis
    by (simp add: isEntryAllowed.simps)
next
  case False
  with isEntryAllowed_same_place [of older newer d] assms(2,4,5,6)
  have "\<not> isEntryAllowed d older" by simp
  then show ?thesis
    using isEntryAllowed_antimono [OF applyDigest_whiteouts_mono applyDigest_filePaths_mono]
    by blast
qed

lemma digestLayers_older_file_dropped:
  "i < j \<Longrightarrow> j < length ls \<Longrightarrow>
   newer \<in> set (entries (ls ! i)) \<Longrightarrow> type newer = File \<Longrightarrow> whiteout newer = [] \<Longrightarrow>
   type older = File \<Longrightarrow> path older = path newer \<Longrightarrow> dir older = dir newer \<Longrightarrow>
   older \<notin> set (entries (snd (digestLayers d ls) ! j))"
proof (induction ls arbitrary: d i j)
  case Nil
  then show ?case by simp
next
  case (Cons info rest)
  from Cons.prems(1) obtain k where j: "j = Suc k" by (cases j) auto
  with Cons.prems(2) have k: "k < length rest" by simp
  show ?case
  proof (cases i)
    case 0
    with Cons.prems have "newer \<in> set (entries info)" by simp
    from applyDigest_claims_or_rejects [OF this Cons.prems(4,5,6,7,8)]
    have "\<not> isEntryAllowed (fst (applyDigest d info)) older" .
    from digestLayers_rejected_stays [OF this k] j show ?thesis
      by (simp add: digestLayers_Cons del: digestLayers.simps)
  next
    case (Suc i')
    with Cons.prems j have "i' < k" "newer \<in> set (entries (rest ! i'))" by simp_all
    from Cons.IH [OF this(1) k this(2) Cons.prems(4,5,6,7,8)] j show ?thesis
      by (simp add: digestLayers_Cons del: digestLayers.simps)
  qed
qed

lemma older_file_entry_never_survives:
  assumes "i < j" "j < length layerInfo"
    and "newer \<in> set (entries (layerInfo ! j))" "type newer = File" "whiteout newer = []"
    and "type older = File" "path older = path newer" "dir older = dir newer"
  shows "older \<notin> set (entries (applyDigests layerInfo ! i))"
proof -
  let ?n = "length layerInfo"
  from assms(1,2) have lt: "?n - Suc j < ?n - Suc i" "?n - Suc i < length (rev layerInfo)"
    by simp_all
  from assms(1,2,3) have n: "newer \<in> set (entries (rev layerInfo ! (?n - Suc j)))"
    by (simp add: rev_nth)
  from digestLayers_older_file_dropped [OF lt n assms(4-8)] assms(1,2) show ?thesis
    by (simp add: applyDigests_nth)
qed

section \<open>Lemmas on the manifest reader\<close>

lemma getArchiveManifest_find:
  "getArchiveManifest outer =
     (case find isManifestEntry outer of
        None \<Rightarrow> Inl ArchiveHasNoManifest
      | Some entry \<Rightarrow>
          (case toJson entry of
             JsonArray rawManifest \<Rightarrow> Inr rawManifest
           | JsonOther \<Rightarrow> Inl ManifestNotArray
           | JsonInvalid \<Rightarrow> Inl ManifestNotJson))"
  by (induction outer) simp_all

lemma find_None_set: "find P xs = None \<longleftrightarrow> (\<forall>x \<in> set xs. \<not> P x)"
  by (induction xs) simp_all

lemma shortImageName_strips:
  "shortImageName (''docker.io/library/'' @ t) = t"
  by (simp add: shortImageName_def startsWith_def dockerRepoPrefix_def)

lemma shortImageName_keeps:
  "\<not> prefix ''docker.io/library/'' img \<Longrightarrow> shortImageName img = img"
  by (simp add: shortImageName_def startsWith_def dockerRepoPrefix_def)

section \<open>Lemmas on the layer parser\<close>

text \<open>
  \<open>infoMap\<close> holds, for a name, an object of that name; an object is marked as loaded
  only through \<open>infoMap\<close>, for a file entry of the outer archive.
\<close>

lemma infoMap_fold_Some:
  "foldl (\<lambda>m i. m(f i \<mapsto> i)) m0 is x = Some i \<Longrightarrow> (i \<in> set is \<and> f i = x) \<or> m0 x = Some i"
proof (induction "is" arbitrary: m0)
  case Nil
  then show ?case by simp
next
  case (Cons a "is")
  from Cons.prems have "foldl (\<lambda>m i. m(f i \<mapsto> i)) (m0(f a \<mapsto> a)) is x = Some i"
    by (simp only: foldl_Cons)
  from Cons.IH [OF this] show ?case
    by (auto split: if_splits)
qed

lemma infoMap_fold_defined:
  "m0 x \<noteq> None \<or> x \<in> f ` set is \<Longrightarrow> foldl (\<lambda>m i. m(f i \<mapsto> i)) m0 is x \<noteq> None"
  by (induction "is" arbitrary: m0) auto

lemma buildInfoMap_Some:
  "buildInfoMap results x = Some i \<Longrightarrow> i < length results \<and> name (results ! i) = x"
  unfolding buildInfoMap_def by (drule infoMap_fold_Some) auto

lemma buildInfoMap_defined:
  assumes "x \<in> name ` set results"
  shows "buildInfoMap results x \<noteq> None"
proof -
  from assms obtain i where "i < length results" "name (results ! i) = x"
    by (auto simp: in_set_conv_nth)
  then have "x \<in> (\<lambda>i. name (results ! i)) ` set [0..<length results]"
    by auto
  then show ?thesis
    unfolding buildInfoMap_def by (intro infoMap_fold_defined) simp
qed

lemma parseOuter_returns:
  "\<forall>x \<in> set names. infoMap x \<noteq> None \<Longrightarrow> \<exists>results1. parseOuter names infoMap results outer = Inr results1"
  by (induction outer arbitrary: results) auto

lemma parseOuter_loaded:
  "parseOuter names infoMap results outer = Inr results1 \<Longrightarrow>
   length results1 = length results \<and>
   (\<forall>i < length results. loaded (results1 ! i) \<longrightarrow>
      loaded (results ! i) \<or>
      (\<exists>entry \<in> set outer. tarType entry = File \<and> infoMap (fileName entry) = Some i))"
proof (induction outer arbitrary: results)
  case Nil
  then show ?case by simp
next
  case (Cons entry rest)
  show ?case
  proof (cases "tarType entry = File \<and> fileName entry \<in> set names")
    case False
    with Cons.prems have "parseOuter names infoMap results rest = Inr results1" by auto
    from Cons.IH [OF this] show ?thesis by auto
  next
    case True
    with Cons.prems obtain k where k: "infoMap (fileName entry) = Some k"
      by (auto split: option.splits)
    let ?r = "results[k := (results ! k)
                     \<lparr> entries := entries (results ! k) @ parseNested (fileName entry) (untar entry),
                       loaded := True \<rparr>]"
    from True k Cons.prems have "parseOuter names infoMap ?r rest = Inr results1" by simp
    from Cons.IH [OF this]
    have len: "length results1 = length results"
      and ih: "\<forall>i < length results. loaded (results1 ! i) \<longrightarrow>
          loaded (?r ! i) \<or>
          (\<exists>e \<in> set rest. tarType e = File \<and> infoMap (fileName e) = Some i)"
      by auto
    have "loaded (results1 ! i) \<longrightarrow>
          loaded (results ! i) \<or>
          (\<exists>e \<in> set (entry # rest). tarType e = File \<and> infoMap (fileName e) = Some i)"
      if i: "i < length results" for i
    proof (cases "i = k")
      case True
      with \<open>tarType entry = File \<and> fileName entry \<in> set names\<close> k show ?thesis by auto
    next
      case False
      with ih i show ?thesis by auto
    qed
    with len show ?thesis by blast
  qed
qed

lemma parseNested_kinds:
  "entry \<in> set (parseNested lname nested) \<Longrightarrow> isLayerType (type entry)"
  by (auto simp: parseNested_def newLayerEntry_def Let_def)

lemma parseOuter_kinds:
  "parseOuter names infoMap results outer = Inr results1 \<Longrightarrow>
   \<forall>info \<in> set results. \<forall>entry \<in> set (entries info). isLayerType (type entry) \<Longrightarrow>
   \<forall>info \<in> set results1. \<forall>entry \<in> set (entries info). isLayerType (type entry)"
proof (induction outer arbitrary: results)
  case Nil
  then show ?case by simp
next
  case (Cons entry rest)
  show ?case
  proof (cases "tarType entry = File \<and> fileName entry \<in> set names")
    case False
    with Cons.prems have "parseOuter names infoMap results rest = Inr results1" by auto
    from Cons.IH [OF this Cons.prems(2)] show ?thesis .
  next
    case True
    with Cons.prems obtain k where k: "infoMap (fileName entry) = Some k"
      by (auto split: option.splits)
    let ?x = "(results ! k)
                \<lparr> entries := entries (results ! k) @ parseNested (fileName entry) (untar entry),
                  loaded := True \<rparr>"
    from True k Cons.prems have p: "parseOuter names infoMap (results[k := ?x]) rest = Inr results1"
      by simp
    have "\<forall>info \<in> set (results[k := ?x]). \<forall>e \<in> set (entries info). isLayerType (type e)"
    proof (cases "k < length results")
      case False
      then have "results[k := ?x] = results" by (simp add: list_update_beyond)
      with Cons.prems(2) show ?thesis by simp
    next
      case True
      then have "results ! k \<in> set results" by simp
      with Cons.prems(2) have "\<forall>e \<in> set (entries ?x). isLayerType (type e)"
        by (auto dest: parseNested_kinds)
      with Cons.prems(2) set_update_subset_insert [of results k ?x] show ?thesis
        by blast
    qed
    from Cons.IH [OF p this] show ?thesis .
  qed
qed

lemma parseLayerFiles_kinds:
  assumes "parseLayerFiles outer names = Inr results"
    and "info \<in> set results" "entry \<in> set (entries info)"
  shows "isLayerType (type entry)"
proof -
  let ?results = "map (\<lambda>n. \<lparr> name = n, entries = [], loaded = False \<rparr>) names"
  from assms(1) have "parseOuter names (buildInfoMap ?results) ?results outer = Inr results"
    by (auto simp: parseLayerFiles_def Let_def split: sum.splits option.splits)
  from parseOuter_kinds [OF this] assms(2,3) show ?thesis by auto
qed

lemma parseOuter_names:
  "parseOuter names infoMap results outer = Inr results1 \<Longrightarrow>
   map name results1 = map name results"
proof (induction outer arbitrary: results)
  case Nil
  then show ?case by simp
next
  case (Cons entry rest)
  show ?case
  proof (cases "tarType entry = File \<and> fileName entry \<in> set names")
    case False
    with Cons.prems have "parseOuter names infoMap results rest = Inr results1" by auto
    from Cons.IH [OF this] show ?thesis .
  next
    case True
    with Cons.prems obtain k where k: "infoMap (fileName entry) = Some k"
      by (auto split: option.splits)
    let ?x = "(results ! k)
                \<lparr> entries := entries (results ! k) @ parseNested (fileName entry) (untar entry),
                  loaded := True \<rparr>"
    from True k Cons.prems have p: "parseOuter names infoMap (results[k := ?x]) rest = Inr results1"
      by simp
    have "map name (results[k := ?x]) = map name results"
    proof (cases "k < length results")
      case True
      then show ?thesis by (simp add: map_update list_update_same_conv)
    next
      case False
      then show ?thesis by (simp add: list_update_beyond)
    qed
    with Cons.IH [OF p] show ?thesis by simp
  qed
qed

lemma parseOuter_marks_loaded:
  "parseOuter names infoMap results outer = Inr results1 \<Longrightarrow> i < length results \<Longrightarrow>
   loaded (results ! i) \<or>
     (\<exists>entry \<in> set outer. tarType entry = File \<and> fileName entry \<in> set names
        \<and> infoMap (fileName entry) = Some i) \<Longrightarrow>
   loaded (results1 ! i)"
proof (induction outer arbitrary: results)
  case Nil
  then show ?case by simp
next
  case (Cons entry rest)
  show ?case
  proof (cases "tarType entry = File \<and> fileName entry \<in> set names")
    case False
    with Cons.prems have p: "parseOuter names infoMap results rest = Inr results1" by auto
    from False Cons.prems(3) have "loaded (results ! i) \<or>
     (\<exists>e \<in> set rest. tarType e = File \<and> fileName e \<in> set names \<and> infoMap (fileName e) = Some i)"
      by auto
    from Cons.IH [OF p Cons.prems(2) this] show ?thesis .
  next
    case True
    with Cons.prems obtain k where k: "infoMap (fileName entry) = Some k"
      by (auto split: option.splits)
    let ?x = "(results ! k)
                \<lparr> entries := entries (results ! k) @ parseNested (fileName entry) (untar entry),
                  loaded := True \<rparr>"
    let ?r = "results[k := ?x]"
    from True k Cons.prems have p: "parseOuter names infoMap ?r rest = Inr results1"
      by simp
    from Cons.prems(2) have len: "i < length ?r" by simp
    have "loaded (?r ! i) \<or>
     (\<exists>e \<in> set rest. tarType e = File \<and> fileName e \<in> set names \<and> infoMap (fileName e) = Some i)"
    proof (cases "i = k")
      case True
      with Cons.prems(2) show ?thesis by simp
    next
      case False
      with Cons.prems(3) k show ?thesis by auto
    qed
    from Cons.IH [OF p len this] show ?thesis .
  qed
qed

lemma buildInfoMap_distinct:
  assumes "distinct (map name results)" "i < length results"
  shows "buildInfoMap results (name (results ! i)) = Some i"
proof -
  from assms(2) have "name (results ! i) \<in> name ` set results" by simp
  from buildInfoMap_defined [OF this]
  obtain k where k: "buildInfoMap results (name (results ! i)) = Some k" by auto
  from buildInfoMap_Some [OF k] have "k < length results" "name (results ! k) = name (results ! i)"
    by simp_all
  with assms nth_eq_iff_index_eq [of "map name results" k i] have "k = i"
    by simp
  with k show ?thesis by simp
qed

lemma parseLayerFiles_distinct_names:
  assumes "distinct names"
  shows "parseLayerFiles outer names = Inl MissingLayerInformation \<longleftrightarrow>
         (\<exists>n \<in> set names. \<forall>e \<in> set outer. \<not> (tarType e = File \<and> fileName e = n))"
proof -
  let ?results = "map (\<lambda>n. \<lparr> name = n, entries = [], loaded = False \<rparr>) names"
  let ?infoMap = "buildInfoMap ?results"
  have nm: "map name ?results = names" by (simp add: comp_def)
  have "\<forall>x \<in> set names. ?infoMap x \<noteq> None"
    by (intro ballI buildInfoMap_defined) (force simp: image_iff)
  then obtain results1 where r1: "parseOuter names ?infoMap ?results outer = Inr results1"
    using parseOuter_returns by blast
  from parseOuter_loaded [OF r1] have len: "length results1 = length names" by simp
  have loaded_iff: "loaded (results1 ! i) \<longleftrightarrow>
      (\<exists>e \<in> set outer. tarType e = File \<and> fileName e = names ! i)"
    if i: "i < length names" for i
  proof
    assume "loaded (results1 ! i)"
    with parseOuter_loaded [OF r1] i
    obtain e where e: "e \<in> set outer" "tarType e = File" "?infoMap (fileName e) = Some i"
      by auto
    from buildInfoMap_Some [OF e(3)] i have "fileName e = names ! i" by simp
    with e show "\<exists>e \<in> set outer. tarType e = File \<and> fileName e = names ! i" by auto
  next
    assume "\<exists>e \<in> set outer. tarType e = File \<and> fileName e = names ! i"
    then obtain e where e: "e \<in> set outer" "tarType e = File" "fileName e = names ! i"
      by auto
    from assms i have "?infoMap (name (?results ! i)) = Some i"
      by (intro buildInfoMap_distinct) (simp_all add: comp_def)
    with i e have "?infoMap (fileName e) = Some i" by simp
    with e i have "\<exists>entry \<in> set outer. tarType entry = File \<and> fileName entry \<in> set names
        \<and> ?infoMap (fileName entry) = Some i"
      by auto
    with parseOuter_marks_loaded [OF r1, of i] i show "loaded (results1 ! i)" by simp
  qed
  have "find (\<lambda>info. \<not> loaded info) results1 = None \<longleftrightarrow>
        \<not> (\<exists>info \<in> set results1. \<not> loaded info)"
    by (auto simp: find_None_iff)
  then have "parseLayerFiles outer names = Inl MissingLayerInformation \<longleftrightarrow>
        (\<exists>info \<in> set results1. \<not> loaded info)"
    using r1 by (cases "find (\<lambda>info. \<not> loaded info) results1")
      (simp_all add: parseLayerFiles_def Let_def)
  also have "\<dots> \<longleftrightarrow> (\<exists>i < length names. \<not> loaded (results1 ! i))"
    using len by (metis in_set_conv_nth)
  also have "\<dots> \<longleftrightarrow> (\<exists>i < length names. \<forall>e \<in> set outer. \<not> (tarType e = File \<and> fileName e = names ! i))"
    using loaded_iff by auto
  also have "\<dots> \<longleftrightarrow> (\<exists>n \<in> set names. \<forall>e \<in> set outer. \<not> (tarType e = File \<and> fileName e = n))"
    by (metis in_set_conv_nth)
  finally show ?thesis .
qed

section \<open>Lemmas on the extractor\<close>

text \<open>Every path written starts, as a string, with the normalized destination.\<close>

lemma extractNested_paths:
  "extractNested directory entryMap nestedEntry = Inr ops \<Longrightarrow> op \<in> set ops \<Longrightarrow>
   startsWith (opPath op) directory"
  by (auto simp: extractNested_def Let_def chmodOps_def
      split: if_splits option.splits)

lemma extractNestedEntries_paths:
  "\<forall>op \<in> set written. startsWith (opPath op) directory \<Longrightarrow>
   \<forall>op \<in> set (snd (extractNestedEntries directory entryMap written nested)).
      startsWith (opPath op) directory"
proof (induction nested arbitrary: written)
  case Nil
  then show ?case by simp
next
  case (Cons nestedEntry rest)
  show ?case
  proof (cases "extractNested directory entryMap nestedEntry")
    case (Inl e)
    with Cons.prems show ?thesis by simp
  next
    case (Inr ops)
    with Cons.prems extractNested_paths [OF Inr]
    have "\<forall>op \<in> set (written @ ops). startsWith (opPath op) directory" by auto
    from Cons.IH [OF this] Inr show ?thesis by simp
  qed
qed

lemma extractOuterEntries_paths:
  "\<forall>op \<in> set written. startsWith (opPath op) directory \<Longrightarrow>
   \<forall>op \<in> set (snd (extractOuterEntries directory layerNames entryMap written outer)).
      startsWith (opPath op) directory"
proof (induction outer arbitrary: written)
  case Nil
  then show ?case by simp
next
  case (Cons entry rest)
  show ?case
  proof (cases "(tarType entry = File \<or> tarType entry = Symlink) \<and> fileName entry \<in> layerNames")
    case False
    with Cons.IH [OF Cons.prems] show ?thesis by auto
  next
    case True
    obtain r written1 where r: "extractNestedEntries directory entryMap written (untar entry) = (r, written1)"
      by (cases "extractNestedEntries directory entryMap written (untar entry)")
    with extractNestedEntries_paths [OF Cons.prems, of entryMap "untar entry"]
    have w1: "\<forall>op \<in> set written1. startsWith (opPath op) directory" by simp
    show ?thesis
    proof (cases r)
      case None
      with True r Cons.IH [OF w1] show ?thesis by simp
    next
      case (Some e)
      with True r w1 show ?thesis by simp
    qed
  qed
qed

lemma extractLayers_paths:
  "op \<in> set (snd (extractLayers outer directory layerInfo)) \<Longrightarrow>
   startsWith (opPath op) (normalize directory)"
  using extractOuterEntries_paths [of "[]" "normalize directory"]
  by (simp add: extractLayers_def)

section \<open>Newest wins on a file path collision\<close>

text \<open>
  C1. For two layers that both declare a file at the same path, the digest never leaves
  the older layer's entry (lemma \<open>older_file_entry_never_survives\<close>), and the
  specification has the extraction write only the newer layer's content. The extraction
  pass looks a nested entry up by its path alone and not by its layer, so it writes the
  content of both layers at the path, in the order of the outer archive: on
  \<open>collisionArchive\<close> the older layer's bytes are written last and stay; on
  \<open>collisionArchiveOldestFirst\<close> they are written first.
\<close>

theorem collision_writes_both_contents:
  "map entries (applyDigests
       [\<lparr> name = ''l1'', entries = [newLayerEntry ''l1'' File ''p'' 3], loaded = True \<rparr>,
        \<lparr> name = ''l2'', entries = [newLayerEntry ''l2'' File ''p'' 3], loaded = True \<rparr>])
     = [[], [newLayerEntry ''l2'' File ''p'' 3]]
   \<and> extractContainerImage ''img:1'' ''/out'' collisionArchive
     = (None, [WriteFile ''/out/p'' ''new'', WriteFile ''/out/p'' ''old''])
   \<and> extractContainerImage ''img:1'' ''/out'' collisionArchiveOldestFirst
     = (None, [WriteFile ''/out/p'' ''old'', WriteFile ''/out/p'' ''new''])"
  by code_simp

section \<open>Scope of an opaque whiteout\<close>

text \<open>
  \<open>Path.common\<close> of two paths is empty or ends with a separator. An item that is not
  empty and does not end with a separator (every whiteout target but \<open>/\<close>) is then never
  equal to it, and \<open>directoryMatch\<close> finds such an item for the candidate equal to it
  only.
\<close>

lemma endsWith_separator_last:
  "endsWith s ''/'' \<Longrightarrow> last s = SEP"
  by (cases s rule: rev_cases) (simp_all add: endsWith_def)

lemma common_pair_ends_with_separator:
  "common [a, b] = [] \<or> last (common [a, b]) = SEP"
proof (cases "a = []")
  case True
  then show ?thesis by (simp add: common_def)
next
  case False
  define n where "n = min (length (split_sep a)) (commonLen (split_sep a) (split_sep b))"
  define pre where "pre = join_sep (take n (split_sep a))"
  from False have eq: "common [a, b] =
      (if n = 0 then [] else if endsWith pre ''/'' then pre else pre @ ''/'')"
    by (auto simp: common_def Let_def pre_def n_def min_def)
  show ?thesis
    unfolding eq by (auto dest: endsWith_separator_last)
qed

lemma directoryMatch_exact_only:
  assumes "\<forall>item \<in> items. item \<noteq> [] \<and> last item \<noteq> SEP"
  shows "directoryMatch candidate items \<longleftrightarrow> candidate \<in> items"
proof -
  have "common [candidate, item] \<noteq> item" if "item \<in> items" for item
    using that assms common_pair_ends_with_separator [of candidate item] by force
  then show ?thesis
    by (auto simp: directoryMatch_def)
qed

text \<open>
  C2. An opaque whiteout under a directory \<open>D\<close> is to hide, in every older layer, every
  entry whose parent directory is \<open>D\<close> or lies below \<open>D\<close>, and to leave the entry of
  \<open>D\<close> itself. \<open>directoryMatch\<close> compares the result of \<open>Path.common\<close>, which ends with a
  separator, with an item that does not, so only a parent directory equal to \<open>D\<close> is
  matched: the example of its own comment (\<open>/a/b/c\<close> matches \<open>/a/b\<close>) does not hold. On
  the example of the specification (\<open>opaqueArchive\<close>, parsed to \<open>opaqueLayers\<close>) the
  directory \<open>var\<close> is left and the directory \<open>var/log\<close> is not, as they should, but the
  file \<open>var/log/a.txt\<close>, whose parent directory lies below the target \<open>/var\<close>, is left
  too and is in the map the extractor writes from.
\<close>

theorem opaque_whiteout_misses_descendants:
  "\<not> directoryMatch ''/a/b/c'' {''/a/b''}
   \<and> common [''/a/b/c'', ''/a/b''] = ''/a/b/''
   \<and> parseLayerFiles opaqueArchive [''l1'', ''l2''] = Inr opaqueLayers
   \<and> isOpaqueWhiteout opaqueMarker \<and> whiteout opaqueMarker = ''/var''
   \<and> dir (newLayerEntry ''l1'' File ''var/log/a.txt'' 1) = ''/var/log''
   \<and> map (\<lambda>info. map path (entries info)) (applyDigests opaqueLayers)
     = [[''var'', ''var/log/a.txt''], [''var/.wh..wh..opq'']]
   \<and> buildEntryMap (applyDigests opaqueLayers) ''var/log/a.txt''
     = Some (newLayerEntry ''l1'' File ''var/log/a.txt'' 1)
   \<and> buildEntryMap (applyDigests opaqueLayers) ''var/log'' = None"
  by code_simp

section \<open>Tracking of whiteout targets\<close>




section \<open>Path confinement\<close>

text \<open>
  C4. Every path written is to remain under the destination root. The program checks
  that the normalized output path starts with the destination as a string (which is all
  that lemma \<open>extractLayers_paths\<close> gives), so a sibling of the destination whose name
  starts with the destination's name passes: with the destination \<open>/tmp/out\<close> the entry
  \<open>../outside/evil\<close> is written at \<open>/tmp/outside/evil\<close>, which is not under \<open>/tmp/out\<close>,
  and no error is thrown.
\<close>

theorem confinement_by_string_prefix_escapes:
  "extractContainerImage ''img:1'' ''/tmp/out'' traversalArchive
     = (None, [WriteFile ''/tmp/outside/evil'' ''x''])
   \<and> \<not> remainsUnder ''/tmp/out'' ''/tmp/outside/evil''"
  by code_simp

section \<open>Resolution of symbolic link targets\<close>

text \<open>
  C5. For a symbolic link that is written, an absolute link target is resolved against
  the destination and any other against the directory of the output path; the resolved
  target is normalized and must start with the destination, else the extraction fails.
  With the destination \<open>root\<close>, the link \<open>a/b/link\<close> to \<open>../etc/passwd\<close> is created with
  the target \<open>root/a/etc/passwd\<close>, and the link to \<open>../../../etc/passwd\<close> is rejected.
\<close>

theorem symlink_target_resolution:
  "(isLayerType (tarType nestedEntry)
    \<and> entryMap (fileName nestedEntry) = Some layerEntry \<and> type layerEntry = Symlink
    \<and> outputPath = normalize (join [directory, fileName nestedEntry])
    \<and> startsWith outputPath directory
    \<and> target = (if isAbsolute (linkName nestedEntry)
                 then normalize (join [directory, linkName nestedEntry])
                 else normalize (join [dirname outputPath, linkName nestedEntry]))
    \<longrightarrow> extractNested directory entryMap nestedEntry
        = (if startsWith target directory
           then Inr [Remove outputPath, SymlinkTo target outputPath]
           else Inl (DirectoryEscape target)))
   \<and> extractNested ''root'' linkMap (linkEntry ''../etc/passwd'')
       = Inr [Remove ''root/a/b/link'', SymlinkTo ''root/a/etc/passwd'' ''root/a/b/link'']
   \<and> extractNested ''root'' linkMap (linkEntry ''../../../etc/passwd'')
       = Inl (DirectoryEscape ''etc/passwd'')
   \<and> kind (DirectoryEscape ''etc/passwd'') = PathEscape
   \<and> extractNested ''root'' linkMap (linkEntry ''/etc/passwd'')
       = Inr [Remove ''root/a/b/link'', SymlinkTo ''root/etc/passwd'' ''root/a/b/link'']"
proof -
  have general: "isLayerType (tarType nestedEntry)
    \<and> entryMap (fileName nestedEntry) = Some layerEntry \<and> type layerEntry = Symlink
    \<and> outputPath = normalize (join [directory, fileName nestedEntry])
    \<and> startsWith outputPath directory
    \<and> target = (if isAbsolute (linkName nestedEntry)
                 then normalize (join [directory, linkName nestedEntry])
                 else normalize (join [dirname outputPath, linkName nestedEntry]))
    \<longrightarrow> extractNested directory entryMap nestedEntry
        = (if startsWith target directory
           then Inr [Remove outputPath, SymlinkTo target outputPath]
           else Inl (DirectoryEscape target))"
  proof (intro impI, elim conjE)
    assume a: "isLayerType (tarType nestedEntry)"
      "entryMap (fileName nestedEntry) = Some layerEntry" "type layerEntry = Symlink"
      and o: "outputPath = normalize (join [directory, fileName nestedEntry])"
      and s: "startsWith outputPath directory"
      and t: "target = (if isAbsolute (linkName nestedEntry)
                 then normalize (join [directory, linkName nestedEntry])
                 else normalize (join [dirname outputPath, linkName nestedEntry]))"
    from s have s': "startsWith (normalize (join [directory, fileName nestedEntry])) directory"
      by (simp only: o)
    show "extractNested directory entryMap nestedEntry
        = (if startsWith target directory
           then Inr [Remove outputPath, SymlinkTo target outputPath]
           else Inl (DirectoryEscape target))"
      unfolding t o using a s' by (simp add: extractNested_def Let_def)
  qed
  have allowed: "extractNested ''root'' linkMap (linkEntry ''../etc/passwd'')
       = Inr [Remove ''root/a/b/link'', SymlinkTo ''root/a/etc/passwd'' ''root/a/b/link'']"
    by code_simp
  have rejected: "extractNested ''root'' linkMap (linkEntry ''../../../etc/passwd'')
       = Inl (DirectoryEscape ''etc/passwd'')"
    by code_simp
  have k: "kind (DirectoryEscape ''etc/passwd'') = PathEscape"
    by simp
  have absolute: "extractNested ''root'' linkMap (linkEntry ''/etc/passwd'')
       = Inr [Remove ''root/a/b/link'', SymlinkTo ''root/etc/passwd'' ''root/a/b/link'']"
    by code_simp
  from general allowed rejected k absolute show ?thesis
    by (intro conjI)
qed

text \<open>The general statement at the link \<open>a/b/link\<close> to \<open>../etc/passwd\<close>.\<close>

theorem symlink_target_resolution_witness:
  "isLayerType (tarType (linkEntry ''../etc/passwd''))
   \<and> linkMap (fileName (linkEntry ''../etc/passwd''))
       = Some (newLayerEntry ''l1'' Symlink ''a/b/link'' 0)
   \<and> type (newLayerEntry ''l1'' Symlink ''a/b/link'' 0) = Symlink
   \<and> normalize (join [''root'', fileName (linkEntry ''../etc/passwd'')]) = ''root/a/b/link''
   \<and> startsWith ''root/a/b/link'' ''root''
   \<and> \<not> isAbsolute (linkName (linkEntry ''../etc/passwd''))
   \<and> normalize (join [dirname ''root/a/b/link'', linkName (linkEntry ''../etc/passwd'')])
       = ''root/a/etc/passwd''
   \<and> startsWith ''root/a/etc/passwd'' ''root''
   \<and> extractNested ''root'' linkMap (linkEntry ''../etc/passwd'')
       = Inr [Remove ''root/a/b/link'', SymlinkTo ''root/a/etc/passwd'' ''root/a/b/link'']"
proof -
  have h: "isLayerType (tarType (linkEntry ''../etc/passwd''))"
    "linkMap (fileName (linkEntry ''../etc/passwd''))
       = Some (newLayerEntry ''l1'' Symlink ''a/b/link'' 0)"
    "type (newLayerEntry ''l1'' Symlink ''a/b/link'' 0) = Symlink"
    "normalize (join [''root'', fileName (linkEntry ''../etc/passwd'')]) = ''root/a/b/link''"
    "startsWith ''root/a/b/link'' ''root''"
    "\<not> isAbsolute (linkName (linkEntry ''../etc/passwd''))"
    "normalize (join [dirname ''root/a/b/link'', linkName (linkEntry ''../etc/passwd'')])
       = ''root/a/etc/passwd''"
    "startsWith ''root/a/etc/passwd'' ''root''"
    by code_simp+
  have t: "''root/a/etc/passwd''
      = (if isAbsolute (linkName (linkEntry ''../etc/passwd''))
         then normalize (join [''root'', linkName (linkEntry ''../etc/passwd'')])
         else normalize (join [dirname ''root/a/b/link'', linkName (linkEntry ''../etc/passwd'')]))"
    using h(6,7) by (simp only: if_False)
  from symlink_target_resolution
    [where nestedEntry = "linkEntry ''../etc/passwd''" and entryMap = linkMap
       and layerEntry = "newLayerEntry ''l1'' Symlink ''a/b/link'' 0"
       and outputPath = "''root/a/b/link''" and directory = "''root''"
       and target = "''root/a/etc/passwd''"]
  have "isLayerType (tarType (linkEntry ''../etc/passwd''))
    \<and> linkMap (fileName (linkEntry ''../etc/passwd'')) = Some (newLayerEntry ''l1'' Symlink ''a/b/link'' 0)
    \<and> type (newLayerEntry ''l1'' Symlink ''a/b/link'' 0) = Symlink
    \<and> ''root/a/b/link'' = normalize (join [''root'', fileName (linkEntry ''../etc/passwd'')])
    \<and> startsWith ''root/a/b/link'' ''root''
    \<and> ''root/a/etc/passwd'' = (if isAbsolute (linkName (linkEntry ''../etc/passwd''))
                 then normalize (join [''root'', linkName (linkEntry ''../etc/passwd'')])
                 else normalize (join [dirname ''root/a/b/link'', linkName (linkEntry ''../etc/passwd'')]))
    \<longrightarrow> extractNested ''root'' linkMap (linkEntry ''../etc/passwd'')
        = (if startsWith ''root/a/etc/passwd'' ''root''
           then Inr [Remove ''root/a/b/link'', SymlinkTo ''root/a/etc/passwd'' ''root/a/b/link'']
           else Inl (DirectoryEscape ''root/a/etc/passwd''))"
    by (rule conjunct1)
  with h t have "extractNested ''root'' linkMap (linkEntry ''../etc/passwd'')
        = (if startsWith ''root/a/etc/passwd'' ''root''
           then Inr [Remove ''root/a/b/link'', SymlinkTo ''root/a/etc/passwd'' ''root/a/b/link'']
           else Inl (DirectoryEscape ''root/a/etc/passwd''))"
    by (metis (no_types))
  with h(8) have "extractNested ''root'' linkMap (linkEntry ''../etc/passwd'')
       = Inr [Remove ''root/a/b/link'', SymlinkTo ''root/a/etc/passwd'' ''root/a/b/link'']"
    by (simp only: if_True)
  with h show ?thesis by (intro conjI)
qed

section \<open>The kinds that \<open>isEntryAllowed\<close> tells apart\<close>

text \<open>
  C6. An entry that is not of kind File is rejected exactly when \<open>directoryMatch\<close>
  finds its parent directory among the whiteouts; only an entry of kind File is also
  rejected when its path is among the claimed paths or, with a leading separator, among
  the whiteouts.
\<close>

theorem isEntryAllowed_kind_asymmetry:
  "(type entry \<noteq> File \<longrightarrow>
      isEntryAllowed d entry = (\<not> directoryMatch (dir entry) (whiteouts d)))
   \<and> (type entry = File \<longrightarrow>
      isEntryAllowed d entry =
        (\<not> directoryMatch (dir entry) (whiteouts d)
         \<and> path entry \<notin> filePaths d \<and> (SEP # path entry) \<notin> whiteouts d))"
  by (simp add: isEntryAllowed.simps)

text \<open>
  A symbolic link at a path that a newer layer has claimed is accepted; a file at the
  same path is not.
\<close>

theorem isEntryAllowed_kind_asymmetry_witness:
  "isEntryAllowed \<lparr> whiteouts = {}, filePaths = {''bin/sh''} \<rparr>
     (newLayerEntry ''l1'' Symlink ''bin/sh'' 0)
   \<and> \<not> isEntryAllowed \<lparr> whiteouts = {}, filePaths = {''bin/sh''} \<rparr>
     (newLayerEntry ''l1'' File ''bin/sh'' 0)"
  using isEntryAllowed_kind_asymmetry
    [of "newLayerEntry ''l1'' Symlink ''bin/sh'' 0" "\<lparr> whiteouts = {}, filePaths = {''bin/sh''} \<rparr>"]
    isEntryAllowed_kind_asymmetry
    [of "newLayerEntry ''l1'' File ''bin/sh'' 0" "\<lparr> whiteouts = {}, filePaths = {''bin/sh''} \<rparr>"]
  by (simp add: newLayerEntry_def directoryMatch_def Let_def)


section \<open>Errors of the manifest reader\<close>

text \<open>
  C7. Selecting the manifest record fails with \<open>Archive has no manifest\<close> (kind
  NotFound) when the outer archive has no file entry named \<open>manifest.json\<close>, with the
  \<open>TypeError\<close> of kind FormatError when the first such entry decodes to a value that is
  not an array, and with \<open>Archive manifest does not contain image tag\<close> (kind NotFound)
  when no record's \<open>RepoTags\<close> hold the image name without its \<open>docker.io/library/\<close>
  prefix; otherwise it returns the first record whose \<open>RepoTags\<close> hold that name.
\<close>

theorem manifest_reader_errors:
  "((\<forall>e \<in> set outer. \<not> isManifestEntry e) \<longrightarrow>
      selectManifestEntry outer img = Inl ArchiveHasNoManifest)
   \<and> (find isManifestEntry outer = Some entry \<and> toJson entry = JsonOther \<longrightarrow>
      selectManifestEntry outer img = Inl ManifestNotArray)
   \<and> (find isManifestEntry outer = Some entry \<and> toJson entry = JsonArray manifest
        \<and> (\<forall>r \<in> set manifest. \<not> hasRepoTag (shortImageName img) r) \<longrightarrow>
      selectManifestEntry outer img = Inl NoImageTag)
   \<and> (find isManifestEntry outer = Some entry \<and> toJson entry = JsonArray manifest
        \<and> r \<in> set manifest \<and> hasRepoTag (shortImageName img) r \<longrightarrow>
      (\<exists>mainEntry. selectManifestEntry outer img = Inr mainEntry
         \<and> find (hasRepoTag (shortImageName img)) manifest = Some mainEntry
         \<and> mainEntry \<in> set manifest \<and> hasRepoTag (shortImageName img) mainEntry))
   \<and> kind ArchiveHasNoManifest = NotFound \<and> kind ManifestNotArray = FormatError
   \<and> kind NoImageTag = NotFound
   \<and> shortImageName (''docker.io/library/'' @ t) = t
   \<and> (\<not> prefix ''docker.io/library/'' img \<longrightarrow> shortImageName img = img)"
proof -
  have none: "(\<forall>e \<in> set outer. \<not> isManifestEntry e) \<longrightarrow>
      selectManifestEntry outer img = Inl ArchiveHasNoManifest"
    by (simp add: selectManifestEntry_def getArchiveManifest_find find_None_set [symmetric])
  have other: "find isManifestEntry outer = Some entry \<and> toJson entry = JsonOther \<longrightarrow>
      selectManifestEntry outer img = Inl ManifestNotArray"
    by (simp add: selectManifestEntry_def getArchiveManifest_find)
  have notag: "find isManifestEntry outer = Some entry \<and> toJson entry = JsonArray manifest
        \<and> (\<forall>r \<in> set manifest. \<not> hasRepoTag (shortImageName img) r) \<longrightarrow>
      selectManifestEntry outer img = Inl NoImageTag"
    by (simp add: selectManifestEntry_def getArchiveManifest_find find_None_set [symmetric])
  have found: "find isManifestEntry outer = Some entry \<and> toJson entry = JsonArray manifest
        \<and> r \<in> set manifest \<and> hasRepoTag (shortImageName img) r \<longrightarrow>
      (\<exists>mainEntry. selectManifestEntry outer img = Inr mainEntry
         \<and> find (hasRepoTag (shortImageName img)) manifest = Some mainEntry
         \<and> mainEntry \<in> set manifest \<and> hasRepoTag (shortImageName img) mainEntry)"
  proof (intro impI, elim conjE)
    assume e: "find isManifestEntry outer = Some entry" "toJson entry = JsonArray manifest"
      and r: "r \<in> set manifest" "hasRepoTag (shortImageName img) r"
    from r have "find (hasRepoTag (shortImageName img)) manifest \<noteq> None"
      by (auto simp: find_None_set)
    then obtain mainEntry where m: "find (hasRepoTag (shortImageName img)) manifest = Some mainEntry"
      by auto
    then have "mainEntry \<in> set manifest \<and> hasRepoTag (shortImageName img) mainEntry"
      by (auto simp: find_Some_iff)
    with e m show "\<exists>mainEntry. selectManifestEntry outer img = Inr mainEntry
         \<and> find (hasRepoTag (shortImageName img)) manifest = Some mainEntry
         \<and> mainEntry \<in> set manifest \<and> hasRepoTag (shortImageName img) mainEntry"
      by (simp add: selectManifestEntry_def getArchiveManifest_find)
  qed
  show ?thesis
    using none other notag found shortImageName_strips shortImageName_keeps by simp
qed


theorem manifest_reader_errors_witness:
  "selectManifestEntry [] ''img:1'' = Inl ArchiveHasNoManifest
   \<and> selectManifestEntry [mkManifest JsonOther] ''img:1'' = Inl ManifestNotArray
   \<and> selectManifestEntry [manifestOf [''l1'']] ''other:2'' = Inl NoImageTag
   \<and> selectManifestEntry [manifestOf [''l1'']] ''docker.io/library/img:1''
       = Inr \<lparr> Config = ''config.json'', RepoTags = Some [''img:1''], Layers = [''l1''] \<rparr>"
proof -
  let ?r = "\<lparr> Config = ''config.json'', RepoTags = Some [''img:1''], Layers = [''l1''] \<rparr>"
  have a: "selectManifestEntry [] ''img:1'' = Inl ArchiveHasNoManifest"
    using manifest_reader_errors [where outer = "[]" and img = "''img:1''"] by simp
  have fo: "find isManifestEntry [mkManifest JsonOther] = Some (mkManifest JsonOther)"
    "toJson (mkManifest JsonOther) = JsonOther"
    by code_simp+
  from fo have b: "selectManifestEntry [mkManifest JsonOther] ''img:1'' = Inl ManifestNotArray"
    using manifest_reader_errors
      [where outer = "[mkManifest JsonOther]" and entry = "mkManifest JsonOther"]
    by blast
  have fm: "find isManifestEntry [manifestOf [''l1'']] = Some (manifestOf [''l1''])"
    "toJson (manifestOf [''l1'']) = JsonArray [?r]"
    by code_simp+
  have no: "\<forall>r \<in> set [?r]. \<not> hasRepoTag (shortImageName ''other:2'') r"
    by (simp add: hasRepoTag_def shortImageName_def startsWith_def dockerRepoPrefix_def)
  from fm no have c: "selectManifestEntry [manifestOf [''l1'']] ''other:2'' = Inl NoImageTag"
    using manifest_reader_errors
      [where outer = "[manifestOf [''l1'']]" and entry = "manifestOf [''l1'']"
         and manifest = "[?r]" and img = "''other:2''"]
    by blast
  have yes: "?r \<in> set [?r]" "hasRepoTag (shortImageName ''docker.io/library/img:1'') ?r"
    "find (hasRepoTag (shortImageName ''docker.io/library/img:1'')) [?r] = Some ?r"
    by code_simp+
  from fm yes have "\<exists>mainEntry.
      selectManifestEntry [manifestOf [''l1'']] ''docker.io/library/img:1'' = Inr mainEntry
      \<and> find (hasRepoTag (shortImageName ''docker.io/library/img:1'')) [?r] = Some mainEntry"
    using manifest_reader_errors
      [where outer = "[manifestOf [''l1'']]" and entry = "manifestOf [''l1'']"
         and manifest = "[?r]" and img = "''docker.io/library/img:1''" and r = ?r]
    by blast
  with yes(3) have d: "selectManifestEntry [manifestOf [''l1'']] ''docker.io/library/img:1'' = Inr ?r"
    by auto
  from a b c d show ?thesis by (intro conjI)
qed

section \<open>Contract of the layer parser\<close>

text \<open>
  C8. The catalogs hold entries of the kinds File, Directory and Symlink only (lemma
  \<open>parseLayerFiles_kinds\<close>), and parsing is to fail exactly when a requested layer name
  was never observed in the outer archive. For names that are pairwise distinct it does
  (lemma \<open>parseLayerFiles_distinct_names\<close>). When the manifest lists a layer twice,
  \<open>infoMap\<close> holds the second object of that name only; the first one is never marked as
  loaded, and parsing fails although the layer was observed.
\<close>

theorem repeated_layer_name_fails:
  "parseLayerFiles repeatedLayerArchive [''l1'', ''l1''] = Inl MissingLayerInformation
   \<and> extractContainerImage ''img:1'' ''/out'' repeatedLayerArchive
     = (Some MissingLayerInformation, [])"
  by code_simp

section \<open>Whiteout targets and the surviving entries\<close>

text \<open>
  C9, as amended. After the digest has filtered all layers, no entry of kind File of a
  layer strictly older than the layer of a kept whiteout entry has that whiteout's target
  as its path (with the leading separator the program compares with). Layers are indexed
  in manifest order, oldest first.
\<close>

theorem older_file_at_whiteout_target_excluded:
  "i < j \<and> j < length layerInfo
   \<and> m \<in> set (entries (applyDigests layerInfo ! j)) \<and> whiteout m \<noteq> []
   \<and> entry \<in> set (entries (applyDigests layerInfo ! i)) \<and> type entry = File
   \<longrightarrow> SEP # path entry \<noteq> whiteout m"
proof (intro impI, elim conjE)
  assume "i < j" "j < length layerInfo"
    and "m \<in> set (entries (applyDigests layerInfo ! j))" "whiteout m \<noteq> []"
    and "entry \<in> set (entries (applyDigests layerInfo ! i))" and f: "type entry = File"
  from applyDigests_marker_hides [OF this(1-5)] f
  show "SEP # path entry \<noteq> whiteout m" by simp
qed

theorem older_file_at_whiteout_target_excluded_witness:
  "(0::nat) < 1 \<and> 1 < length recreatedLayers
   \<and> confWhiteout \<in> set (entries (applyDigests recreatedLayers ! 1))
   \<and> whiteout confWhiteout \<noteq> []
   \<and> newLayerEntry ''l1'' File ''etc/passwd'' 0 \<in> set (entries (applyDigests recreatedLayers ! 0))
   \<and> type (newLayerEntry ''l1'' File ''etc/passwd'' 0) = File
   \<and> SEP # path (newLayerEntry ''l1'' File ''etc/passwd'' 0) \<noteq> whiteout confWhiteout"
proof -
  have h: "(0::nat) < 1" "1 < length recreatedLayers"
    "confWhiteout \<in> set (entries (applyDigests recreatedLayers ! 1))"
    "whiteout confWhiteout \<noteq> []"
    "newLayerEntry ''l1'' File ''etc/passwd'' 0 \<in> set (entries (applyDigests recreatedLayers ! 0))"
    "type (newLayerEntry ''l1'' File ''etc/passwd'' 0) = File"
    by code_simp+
  from h older_file_at_whiteout_target_excluded
    [of 0 1 recreatedLayers confWhiteout "newLayerEntry ''l1'' File ''etc/passwd'' 0"]
  have "SEP # path (newLayerEntry ''l1'' File ''etc/passwd'' 0) \<noteq> whiteout confWhiteout"
    by blast
  with h show ?thesis by blast
qed

text \<open>
  The claim as stated fails: on \<open>recreatedLayers\<close> both whiteouts of \<open>l2\<close> are kept, and
  their targets \<open>/etc/conf\<close> and \<open>/etc/d\<close> are paths of entries the extractor is given:
  the file \<open>etc/conf\<close> of the newer layer \<open>l3\<close>, and the directory \<open>etc/d\<close> of the
  older layer \<open>l1\<close>.
\<close>

theorem whiteout_target_survives_counterexample:
  "map (\<lambda>info. map path (entries info)) (applyDigests recreatedLayers)
     = [[''etc/d'', ''etc/passwd''], [''etc/.wh.conf'', ''etc/.wh.d''], [''etc/conf'']]
   \<and> whiteout confWhiteout = ''/etc/conf''
   \<and> whiteout (newLayerEntry ''l2'' File ''etc/.wh.d'' 0) = ''/etc/d''
   \<and> buildEntryMap (applyDigests recreatedLayers) ''etc/conf''
     = Some (newLayerEntry ''l3'' File ''etc/conf'' 0)
   \<and> buildEntryMap (applyDigests recreatedLayers) ''etc/d''
     = Some (newLayerEntry ''l1'' Directory ''etc/d'' 0)"
  by code_simp

section \<open>Layers that the parser does not recognise\<close>




end
